theory Spec2Isabelle
  imports Main "HOL-Library.Finite_Map" "HOL-Library.Sublist" "HOL-Library.Word"
begin

section \<open>The value tree\<close>

text \<open>
  The processor decodes a payload into a Go value of type \<open>any\<close> and inspects it with a
  type switch. The dynamic types the switch of \<open>convertToStringKeyMap\<close> tells apart are
  \<open>map[interface{}]interface{}\<close>, \<open>map[string]any\<close> and \<open>[]any\<close>; every other value
  takes the final \<open>return data\<close>. The scalars are \<open>nil\<close>, \<open>bool\<close>, \<open>uint64\<close>,
  \<open>int64\<close>, \<open>float64\<close>, \<open>string\<close> and \<open>[]byte\<close>; \<open>Tag\<close> is the codec's tagged item,
  a struct that carries a number and a nested value, and stands for the values of the
  default branch that have content of their own.

  A Go map is a finite map: it has no order of its own. 64-bit numbers are words; a
  \<open>float64\<close> is kept as its bit pattern, since no arithmetic is done on it.

  A key of a \<open>map[interface{}]interface{}\<close> is a value Go can hash: \<open>nil\<close>, a
  \<open>bool\<close>, a number, a \<open>string\<close>, the codec's \<open>ByteString\<close> (a string type that holds
  a byte-string key), or a tagged item whose content is such a value. A map or a slice
  is never a key.
\<close>

type_synonym uint64 = "64 word"
type_synonym int64 = "64 word"
type_synonym float64 = "64 word"

datatype key =
    KNil
  | KBool bool
  | KUint uint64
  | KInt int64
  | KFloat float64
  | KStr string
  | KByteString string
  | KTag uint64 key

datatype val =
    Nil
  | Bool bool
  | Uint uint64
  | Int int64
  | Float float64
  | Str string
  | Bytes string
  | Slice "val list"
  | MapAny "(key, val) fmap"
  | MapStr "(string, val) fmap"
  | Tag uint64 val

section \<open>What the Go runtime and the standard library supply\<close>

text \<open>
  \<open>for k, v := range x\<close> over a map visits every entry once, in an order the runtime
  chooses anew at each loop. \<open>range_any\<close> and \<open>range_str\<close> are that choice for the two
  map types: given the key set they return the keys in the order of the visit.
  \<open>FormatFloat\<close> is the text \<open>%v\<close> prints for a \<open>float64\<close>.
\<close>

record go_runtime =
  range_any :: "key fset \<Rightarrow> key list"
  range_str :: "string fset \<Rightarrow> string list"
  FormatFloat :: "float64 \<Rightarrow> string"

definition digit :: "nat \<Rightarrow> char" where
  "digit d = ''0123456789'' ! d"

function decimal :: "nat \<Rightarrow> string" where
  "decimal n = (if n < 10 then [digit n] else decimal (n div 10) @ [digit (n mod 10)])"
  by pat_completeness auto
termination
  by (relation "measure id") auto

declare decimal.simps [simp del]

text \<open>
  \<open>fmt.Sprintf("%v", k)\<close> on the key types above: \<open><nil>\<close>, \<open>true\<close> or \<open>false\<close>, the
  decimal digits of an integer with its sign, the characters of a string, and for the
  tagged item, a struct of two fields, the two fields in braces.
\<close>

fun Sprintf_v :: "go_runtime \<Rightarrow> key \<Rightarrow> string" where
  "Sprintf_v R KNil = ''<nil>''"
| "Sprintf_v R (KBool b) = (if b then ''true'' else ''false'')"
| "Sprintf_v R (KUint u) = decimal (unat u)"
| "Sprintf_v R (KInt i) =
     (if sint i < 0 then ''-'' @ decimal (nat (- sint i)) else decimal (nat (sint i)))"
| "Sprintf_v R (KFloat f) = FormatFloat R f"
| "Sprintf_v R (KStr s) = s"
| "Sprintf_v R (KByteString s) = s"
| "Sprintf_v R (KTag n c) = ''{'' @ decimal (unat n) @ '' '' @ Sprintf_v R c @ ''}''"

section \<open>Key normalisation\<close>

lemma size_fmlookup:
  "fmlookup x k = Some v \<Longrightarrow>
   size v < Suc (\<Sum>p\<in>fset (fset_of_fmap x). Suc (case p of (a, b) \<Rightarrow> size b))"
proof -
  assume "fmlookup x k = Some v"
  then have m: "(k, v) \<in> fset (fset_of_fmap x)"
    by simp
  have "(case (k, v) of (a, b) \<Rightarrow> Suc (size b))
        \<le> (\<Sum>p\<in>fset (fset_of_fmap x). case p of (a, b) \<Rightarrow> Suc (size b))"
    by (rule member_le_sum[OF m]) auto
  then show ?thesis
    by (simp add: case_prod_unfold)
qed

lemma size_fmran':
  "v \<in> fmran' x \<Longrightarrow>
   size v < Suc (\<Sum>p\<in>fset (fset_of_fmap x). Suc (case p of (a, b) \<Rightarrow> size b))"
  by (auto simp: fmran'_def ran_def intro: size_fmlookup simp del: size_fmap_overloaded_simps)

declare size_fmlookup [termination_simp] size_fmran' [termination_simp]

text \<open>
  \<open>convertToStringKeyMap\<close>. Each map case starts from the empty \<open>map[string]any\<close> and
  assigns \<open>m[keyStr] = ...\<close> once per visited entry, a later assignment to the same
  key replacing the earlier one. The slice case overwrites every element by its
  conversion and returns the slice. Anything else is returned as it is.

  The loop body runs for the entries of the map; a key the visiting order names and the
  map does not hold is no entry, and nothing is assigned for it.
\<close>

fun convertToStringKeyMap :: "go_runtime \<Rightarrow> val \<Rightarrow> val" where
  "convertToStringKeyMap R (MapAny x) =
     MapStr (fold (\<lambda>k m. case fmlookup x k of
                            None \<Rightarrow> m
                          | Some v \<Rightarrow> fmupd (Sprintf_v R k) (convertToStringKeyMap R v) m)
                  (range_any R (fmdom x)) fmempty)"
| "convertToStringKeyMap R (MapStr x) =
     MapStr (fold (\<lambda>k m. case fmlookup x k of
                            None \<Rightarrow> m
                          | Some v \<Rightarrow> fmupd k (convertToStringKeyMap R v) m)
                  (range_str R (fmdom x)) fmempty)"
| "convertToStringKeyMap R (Slice x) = Slice (map (convertToStringKeyMap R) x)"
| "convertToStringKeyMap R data = data"

text \<open>The elements of a sequence node, in order; no other node has any.\<close>

fun elements :: "val \<Rightarrow> val list" where
  "elements (Slice xs) = xs"
| "elements d = []"



text \<open>
  The runtime's visiting orders are orders of this tree: at every map the conversion
  ranges over, each key of the map comes exactly once.
\<close>

fun range_ok :: "go_runtime \<Rightarrow> val \<Rightarrow> bool" where
  "range_ok R (MapAny x) =
     (distinct (range_any R (fmdom x)) \<and> set (range_any R (fmdom x)) = fset (fmdom x)
      \<and> (\<forall>v \<in> fmran' x. range_ok R v))"
| "range_ok R (MapStr x) =
     (distinct (range_str R (fmdom x)) \<and> set (range_str R (fmdom x)) = fset (fmdom x)
      \<and> (\<forall>v \<in> fmran' x. range_ok R v))"
| "range_ok R (Slice xs) = (\<forall>v \<in> set xs. range_ok R v)"
| "range_ok R d = True"

text \<open>No map the conversion ranges over has two keys with the same text.\<close>

fun collision_free :: "go_runtime \<Rightarrow> val \<Rightarrow> bool" where
  "collision_free R (MapAny x) =
     (inj_on (Sprintf_v R) (fset (fmdom x)) \<and> (\<forall>v \<in> fmran' x. collision_free R v))"
| "collision_free R (MapStr x) = (\<forall>v \<in> fmran' x. collision_free R v)"
| "collision_free R (Slice xs) = (\<forall>v \<in> set xs. collision_free R v)"
| "collision_free R d = True"


text \<open>The binding of a text in a \<open>map[string]any\<close>; no other value binds anything.\<close>

fun bindings :: "val \<Rightarrow> string \<Rightarrow> val option" where
  "bindings (MapStr m) s = fmlookup m s"
| "bindings d s = None"

text \<open>Of the keys of the map \<open>x\<close> whose text is \<open>s\<close>, the one the run visits last.\<close>

definition last_visited :: "go_runtime \<Rightarrow> (key, val) fmap \<Rightarrow> string \<Rightarrow> key option" where
  "last_visited R x s =
     (if filter (\<lambda>k. Sprintf_v R k = s) (range_any R (fmdom x)) = [] then None
      else Some (last (filter (\<lambda>k. Sprintf_v R k = s) (range_any R (fmdom x)))))"




section \<open>The processor and its two operators\<close>

text \<open>
  A payload is a byte slice; \<open>string(bytesContent)\<close> has the same bytes. An error is
  its message, as \<open>fmt.Errorf\<close> builds it: \<open>%w\<close> and \<open>%s\<close> insert the text of the
  wrapped error and of the string.
\<close>

type_synonym bytes = string
type_synonym error = string

record message =
  payload :: bytes

definition SetBytes :: "message \<Rightarrow> bytes \<Rightarrow> message" where
  "SetBytes msg b = msg\<lparr>payload := b\<rparr>"

datatype EncOptions = PreferredUnsortedEncOptions

datatype MapKeyByteStringMode = MapKeyByteStringAllowed | MapKeyByteStringForbidden

record DecOptions =
  MapKeyByteString :: MapKeyByteStringMode

text \<open>
  The calls the package makes into the host and into the two codecs, one field per call:
  \<open>EncOptions.EncMode()\<close>, \<open>DecOptions.DecMode()\<close>, \<open>msg.AsBytes()\<close>,
  \<open>decMode.NewDecoder(bytes.NewReader(b)).Decode(&decoded)\<close>, \<open>decMode.Unmarshal\<close>,
  \<open>encMode.Marshal\<close>, \<open>json.Marshal\<close> and \<open>json.Unmarshal\<close>. Each returns its
  error on the left or its result on the right. The modes are whatever the codec
  builds: \<open>'e\<close> for an encoding mode, \<open>'d\<close> for a decoding mode.
\<close>

record ('e, 'd) libs =
  EncMode :: "EncOptions \<Rightarrow> error + 'e"
  DecMode :: "DecOptions \<Rightarrow> error + 'd"
  AsBytes :: "message \<Rightarrow> error + bytes"
  Decode :: "'d \<Rightarrow> bytes \<Rightarrow> error + val"
  Unmarshal :: "'d \<Rightarrow> bytes \<Rightarrow> error + val"
  Marshal :: "'e \<Rightarrow> val \<Rightarrow> error + bytes"
  json_Marshal :: "val \<Rightarrow> error + bytes"
  json_Unmarshal :: "bytes \<Rightarrow> error + val"

text \<open>
  The field \<open>operator\<close> of the processor holds one of the two closures; the datatype
  names which one, and \<open>call_operator\<close> is the call \<open>cp.operator(m)\<close>.
\<close>

datatype operator = CBORToJSONOperator | CBORFromJSONOperator

record ('e, 'd) CBORProcessor =
  encMode :: 'e
  decMode :: 'd
  operator :: operator

text \<open>
  An operator takes the message and returns it, with its payload replaced or not,
  together with the error (\<open>None\<close> for \<open>nil\<close>).
\<close>

definition newCBORToJSONOperator ::
  "('e, 'd) libs \<Rightarrow> go_runtime \<Rightarrow> ('e, 'd) CBORProcessor \<Rightarrow> message
     \<Rightarrow> message \<times> error option" where
  "newCBORToJSONOperator L R cp msg =
     (case AsBytes L msg of
        Inl err \<Rightarrow> (msg, Some (''failed to get message bytes: '' @ err))
      | Inr bytesContent \<Rightarrow>
          (case Decode L (decMode cp) bytesContent of
             Inl err \<Rightarrow> (msg, Some (''failed to decode CBOR: '' @ err @ '' '' @ bytesContent))
           | Inr decoded \<Rightarrow>
               (let stringKeyData = convertToStringKeyMap R decoded in
                (case json_Marshal L stringKeyData of
                   Inl err \<Rightarrow> (msg, Some (''failed to convert CBOR to JSON: '' @ err))
                 | Inr jsonData \<Rightarrow> (SetBytes msg jsonData, None)))))"

text \<open>
  The second processor file has the same operator with \<open>decMode.Unmarshal\<close> in place of
  the stream decoder and with no key normalisation; it is written with a prime.
\<close>

definition newCBORToJSONOperator' ::
  "('e, 'd) libs \<Rightarrow> ('e, 'd) CBORProcessor \<Rightarrow> message \<Rightarrow> message \<times> error option" where
  "newCBORToJSONOperator' L cp msg =
     (case AsBytes L msg of
        Inl err \<Rightarrow> (msg, Some (''failed to get message bytes: '' @ err))
      | Inr bytesContent \<Rightarrow>
          (case Unmarshal L (decMode cp) bytesContent of
             Inl err \<Rightarrow> (msg, Some (''failed to decode CBOR: '' @ err @ '' '' @ bytesContent))
           | Inr decoded \<Rightarrow>
               (case json_Marshal L decoded of
                  Inl err \<Rightarrow> (msg, Some (''failed to convert CBOR to JSON: '' @ err))
                | Inr jsonData \<Rightarrow> (SetBytes msg jsonData, None))))"

text \<open>The operator of the other direction is the same text in both files.\<close>

definition newCBORFromJSONOperator ::
  "('e, 'd) libs \<Rightarrow> ('e, 'd) CBORProcessor \<Rightarrow> message \<Rightarrow> message \<times> error option" where
  "newCBORFromJSONOperator L cp msg =
     (case AsBytes L msg of
        Inl err \<Rightarrow> (msg, Some (''failed to get message bytes: '' @ err))
      | Inr bytesContent \<Rightarrow>
          (case json_Unmarshal L bytesContent of
             Inl err \<Rightarrow> (msg, Some (''failed to parse JSON: '' @ err))
           | Inr jsonData \<Rightarrow>
               (case Marshal L (encMode cp) jsonData of
                  Inl err \<Rightarrow> (msg, Some (''failed to encode JSON to CBOR: '' @ err))
                | Inr cborData \<Rightarrow> (SetBytes msg cborData, None))))"

definition strToOperator :: "string \<Rightarrow> error + operator" where
  "strToOperator operatorStr =
     (if operatorStr = ''to_json'' then Inr CBORToJSONOperator
      else if operatorStr = ''from_json'' then Inr CBORFromJSONOperator
      else Inl ''invalid operator type'')"

definition NewProcessor :: "('e, 'd) libs \<Rightarrow> string \<Rightarrow> error + ('e, 'd) CBORProcessor" where
  "NewProcessor L operatorStr =
     (case strToOperator operatorStr of
        Inl err \<Rightarrow> Inl err
      | Inr op \<Rightarrow>
          (case EncMode L PreferredUnsortedEncOptions of
             Inl err \<Rightarrow> Inl (''failed to create CBOR encoder: '' @ err)
           | Inr em \<Rightarrow>
               (case DecMode L \<lparr>MapKeyByteString = MapKeyByteStringAllowed\<rparr> of
                  Inl err \<Rightarrow> Inl (''failed to create CBOR decoder: '' @ err)
                | Inr dm \<Rightarrow> Inr \<lparr>encMode = em, decMode = dm, operator = op\<rparr>)))"

definition call_operator ::
  "('e, 'd) libs \<Rightarrow> go_runtime \<Rightarrow> ('e, 'd) CBORProcessor \<Rightarrow> message
     \<Rightarrow> message \<times> error option" where
  "call_operator L R cp m =
     (case operator cp of
        CBORToJSONOperator \<Rightarrow> newCBORToJSONOperator L R cp m
      | CBORFromJSONOperator \<Rightarrow> newCBORFromJSONOperator L cp m)"

text \<open>
  The specification names the step between the JSON parser and the CBOR encoder
  \<open>PrepareForCBOR\<close> and gives it the contract "identity". This definition follows
  the specification's words; the operator above is compared with it.
\<close>

definition PrepareForCBOR :: "val \<Rightarrow> val" where
  "PrepareForCBOR tree = tree"

section \<open>Concrete inputs\<close>

text \<open>
  A CBOR map with the unsigned key 1 and the text key "1", and two visiting orders of
  its two entries. The runs agree on everything but the order.
\<close>

definition colliding_entries :: "(key, val) fmap" where
  "colliding_entries = fmupd (KUint 1) (Str ''a'') (fmupd (KStr ''1'') (Str ''b'') fmempty)"

definition colliding :: val where
  "colliding = MapAny colliding_entries"

definition visit :: "key list \<Rightarrow> go_runtime" where
  "visit ks = \<lparr>range_any = (\<lambda>A. filter (\<lambda>k. k |\<in>| A) ks),
               range_str = (\<lambda>A. filter (\<lambda>k. k |\<in>| A) [''n'', ''s'']),
               FormatFloat = (\<lambda>_. ''0'')\<rparr>"

definition run_a :: go_runtime where
  "run_a = visit [KUint 1, KStr ''1'', KStr ''x'']"

definition run_b :: go_runtime where
  "run_b = visit [KStr ''x'', KStr ''1'', KUint 1]"

text \<open>A map whose keys keep distinct texts, with a sequence and a nested map below it.\<close>

definition nested :: val where
  "nested = MapAny (fmupd (KUint 1) (Slice [Str ''a'', MapStr (fmupd ''n'' Nil fmempty)])
                     (fmupd (KStr ''x'') (Bool True) fmempty))"






text \<open>
  The answers of the host and of the codecs on the payloads used below. \<open>{\<close> is the
  start of a JSON object and nothing more, which \<open>json.Unmarshal\<close> rejects with
  "unexpected end of JSON input"; as CBOR the byte announces a text string whose length
  does not follow, which the decoder rejects with "unexpected EOF". \<open>null\<close> parses to
  \<open>nil\<close>, which encodes to the one byte \<open>0xf6\<close>.

  The two decoding calls differ on bytes that follow a complete item. The stream
  decoder's \<open>Decode\<close> reads the first item and leaves the rest of the stream unread:
  on \<open>f6 ff\<close> it returns \<open>nil\<close> and no error. \<open>Unmarshal\<close> takes the bytes as one
  item and rejects what follows it: on \<open>f6 ff\<close> it returns
  "cbor: 1 bytes of extraneous data starting at index 1".
\<close>

definition sample_libs :: "(unit, unit) libs" where
  "sample_libs =
     \<lparr>EncMode = (\<lambda>_. Inr ()),
      DecMode = (\<lambda>_. Inr ()),
      AsBytes = (\<lambda>m. Inr (payload m)),
      Decode = (\<lambda>_ b. if take 1 b = [CHR 0xF6] then Inr Nil else Inl ''unexpected EOF''),
      Unmarshal = (\<lambda>_ b. if b = [CHR 0xF6] then Inr Nil
                        else if take 1 b = [CHR 0xF6]
                        then Inl (''cbor: '' @ decimal (length b - 1)
                                  @ '' bytes of extraneous data starting at index 1'')
                        else Inl ''unexpected EOF''),
      Marshal = (\<lambda>_ v. if v = Nil then Inr [CHR 0xF6] else Inl ''cbor: unsupported type''),
      json_Marshal = (\<lambda>v. if v = Nil then Inr ''null'' else Inl ''json: unsupported type''),
      json_Unmarshal = (\<lambda>b. if b = ''null'' then Inr Nil
                             else Inl ''unexpected end of JSON input'')\<rparr>"

definition sample_processor :: "(unit, unit) CBORProcessor" where
  "sample_processor = \<lparr>encMode = (), decMode = (), operator = CBORFromJSONOperator\<rparr>"

definition truncated :: message where
  "truncated = \<lparr>payload = ''{''\<rparr>"

definition json_null :: message where
  "json_null = \<lparr>payload = ''null''\<rparr>"

definition trailing :: message where
  "trailing = \<lparr>payload = [CHR 0xF6, CHR 0xFF]\<rparr>"

section \<open>Facts about the assignment loop\<close>

lemma fmran'_fmupd_cases: "w \<in> fmran' (fmupd k v m) \<Longrightarrow> w = v \<or> w \<in> fmran' m"
  by (auto simp: fmran'_def ran_def split: if_splits)

lemma fmran'_fmupd_fresh:
  assumes "fmlookup m k = None"
  shows "fmran' (fmupd k a m) = insert a (fmran' m)"
proof (rule set_eqI)
  fix w
  show "w \<in> fmran' (fmupd k a m) \<longleftrightarrow> w \<in> insert a (fmran' m)"
  proof
    assume "w \<in> fmran' (fmupd k a m)"
    then show "w \<in> insert a (fmran' m)"
      by (auto dest: fmran'_fmupd_cases)
  next
    assume "w \<in> insert a (fmran' m)"
    then consider "w = a" | "w \<in> fmran' m"
      by auto
    then show "w \<in> fmran' (fmupd k a m)"
    proof cases
      case 1
      have "fmlookup (fmupd k a m) k = Some a"
        by simp
      then show ?thesis
        unfolding 1 by (rule fmran'I)
    next
      case 2
      then obtain j where j: "fmlookup m j = Some w"
        by (auto simp: fmran'_def ran_def)
      with assms have "j \<noteq> k"
        by auto
      then have "fmlookup (fmupd k a m) j = Some w"
        using j by simp
      then show ?thesis
        by (rule fmran'I)
    qed
  qed
qed

lemma ball_fmran'_fmupd:
  "fmlookup m k = None \<Longrightarrow>
   (\<forall>v \<in> fmran' (fmupd k a m). P v) \<longleftrightarrow> (P a \<and> (\<forall>v \<in> fmran' m. P v))"
  by (simp add: fmran'_fmupd_fresh)

lemma ball_fmran'_fmempty: "(\<forall>v \<in> fmran' fmempty. P v) \<longleftrightarrow> True"
  by (auto simp: fmran'_def)


text \<open>A text no visited key has is left as it was.\<close>

lemma fold_assign_miss:
  "s \<notin> F ` set ks \<Longrightarrow>
   fmlookup (fold (\<lambda>k m. case fmlookup x k of None \<Rightarrow> m
                            | Some v \<Rightarrow> fmupd (F k) (c v) m) ks acc) s
     = fmlookup acc s"
  by (induction ks arbitrary: acc) (auto split: option.splits)

text \<open>When no two visited keys share a text, the text of a key ends bound to its value.\<close>

lemma fold_assign_hit:
  "inj_on F (set ks) \<Longrightarrow> k \<in> set ks \<Longrightarrow> fmlookup x k = Some v \<Longrightarrow>
   fmlookup (fold (\<lambda>k m. case fmlookup x k of None \<Rightarrow> m
                            | Some v \<Rightarrow> fmupd (F k) (c v) m) ks acc) (F k)
     = Some (c v)"
proof (induction ks arbitrary: acc)
  case Nil
  then show ?case
    by simp
next
  case (Cons a ks)
  have inj: "inj_on F (set ks)"
    using Cons.prems(1) by (simp add: inj_on_def)
  show ?case
  proof (cases "k \<in> set ks")
    case True
    then show ?thesis
      using Cons.IH[OF inj True Cons.prems(3)] by simp
  next
    case False
    then have ka: "k = a"
      using Cons.prems(2) by simp
    have "F k \<notin> F ` set ks"
      using Cons.prems(1) False ka by (auto simp: inj_on_def)
    then show ?thesis
      using ka Cons.prems(3) by (simp add: fold_assign_miss)
  qed
qed

lemma fold_assign_order:
  assumes inj: "inj_on F (fset (fmdom x))"
    and s1: "set ks1 = fset (fmdom x)" and s2: "set ks2 = fset (fmdom x)"
    and c: "\<And>v. v \<in> fmran' x \<Longrightarrow> c1 v = c2 v"
  shows "fold (\<lambda>k m. case fmlookup x k of None \<Rightarrow> m
                       | Some v \<Rightarrow> fmupd (F k) (c1 v) m) ks1 fmempty
       = fold (\<lambda>k m. case fmlookup x k of None \<Rightarrow> m
                       | Some v \<Rightarrow> fmupd (F k) (c2 v) m) ks2 fmempty"
proof (rule fmap_ext)
  fix s
  show "fmlookup (fold (\<lambda>k m. case fmlookup x k of None \<Rightarrow> m
                                | Some v \<Rightarrow> fmupd (F k) (c1 v) m) ks1 fmempty) s
      = fmlookup (fold (\<lambda>k m. case fmlookup x k of None \<Rightarrow> m
                                | Some v \<Rightarrow> fmupd (F k) (c2 v) m) ks2 fmempty) s"
  proof (cases "s \<in> F ` fset (fmdom x)")
    case False
    then show ?thesis
      using s1 s2 by (simp add: fold_assign_miss)
  next
    case True
    then obtain k where k: "k \<in> fset (fmdom x)" and sk: "s = F k"
      by auto
    then obtain v where v: "fmlookup x k = Some v"
      by (auto simp: fmdom.rep_eq dom_def)
    have i1: "inj_on F (set ks1)" and i2: "inj_on F (set ks2)"
      using inj s1 s2 by simp_all
    have "c1 v = c2 v"
      using c v by (auto intro: fmran'I)
    then show ?thesis
      using fold_assign_hit[OF i1 _ v, of c1 fmempty] fold_assign_hit[OF i2 _ v, of c2 fmempty]
        k s1 s2 sk by simp
  qed
qed

lemma Sprintf_v_FormatFloat:
  "FormatFloat R1 = FormatFloat R2 \<Longrightarrow> Sprintf_v R1 k = Sprintf_v R2 k"
  by (induction k) simp_all

lemma decimal_one: "decimal (Suc 0) = ''1''"
  by (subst decimal.simps) (simp add: digit_def)

lemma sublist_append_left: "sublist b (p @ b)"
  unfolding sublist_def by (intro exI[of _ p] exI[of _ "[]"]) simp

text \<open>The two runs on the sample trees.\<close>

lemma run_a_colliding:
  "convertToStringKeyMap run_a colliding = MapStr (fmupd ''1'' (Str ''b'') fmempty)"
  by (simp add: colliding_def colliding_entries_def run_a_def visit_def decimal_one)

lemma run_b_colliding:
  "convertToStringKeyMap run_b colliding = MapStr (fmupd ''1'' (Str ''a'') fmempty)"
  by (simp add: colliding_def colliding_entries_def run_b_def visit_def decimal_one)

lemma range_ok_colliding: "range_ok run_a colliding \<and> range_ok run_b colliding"
  by (simp add: colliding_def colliding_entries_def run_a_def run_b_def visit_def ball_fmran'_fmupd
      ball_fmran'_fmempty insert_commute)

lemma range_ok_nested: "range_ok run_a nested \<and> range_ok run_b nested"
  by (simp add: nested_def run_a_def run_b_def visit_def ball_fmran'_fmupd
      ball_fmran'_fmempty insert_commute)

lemma collision_free_nested: "collision_free run_a nested"
  by (simp add: nested_def run_a_def visit_def ball_fmran'_fmupd ball_fmran'_fmempty
      decimal_one)

lemma fold_assign_last:
  "\<forall>k \<in> set ks. fmlookup x k \<noteq> None \<Longrightarrow>
   fmlookup (fold (\<lambda>k m. case fmlookup x k of None \<Rightarrow> m
                            | Some v \<Rightarrow> fmupd (F k) (c v) m) ks acc) s
     = (if filter (\<lambda>k. F k = s) ks = [] then fmlookup acc s
        else map_option c (fmlookup x (last (filter (\<lambda>k. F k = s) ks))))"
proof (induction ks rule: rev_induct)
  case Nil
  then show ?case
    by simp
next
  case (snoc k ks)
  then obtain v where v: "fmlookup x k = Some v"
    by auto
  have ih: "fmlookup (fold (\<lambda>k m. case fmlookup x k of None \<Rightarrow> m
                            | Some v \<Rightarrow> fmupd (F k) (c v) m) ks acc) s
     = (if filter (\<lambda>k. F k = s) ks = [] then fmlookup acc s
        else map_option c (fmlookup x (last (filter (\<lambda>k. F k = s) ks))))"
    using snoc by simp
  show ?case
  proof (cases "F k = s")
    case True
    then show ?thesis
      using v by simp
  next
    case False
    then show ?thesis
      using v ih by simp
  qed
qed

lemma convert_last_visited:
  "range_ok R (MapAny x) \<Longrightarrow>
   bindings (convertToStringKeyMap R (MapAny x)) s
     = (case last_visited R x s of
          None \<Rightarrow> None
        | Some k \<Rightarrow> map_option (convertToStringKeyMap R) (fmlookup x k))"
proof -
  assume r: "range_ok R (MapAny x)"
  have "\<forall>k \<in> set (range_any R (fmdom x)). fmlookup x k \<noteq> None"
    using r by (auto simp: fmdom.rep_eq dom_def)
  from fold_assign_last[OF this, of "Sprintf_v R" "convertToStringKeyMap R" fmempty s]
  show ?thesis
    by (simp add: last_visited_def)
qed




lemma convert_order_independent:
  "FormatFloat R1 = FormatFloat R2 \<Longrightarrow> collision_free R1 t \<Longrightarrow> range_ok R1 t \<Longrightarrow>
   range_ok R2 t \<Longrightarrow> convertToStringKeyMap R1 t = convertToStringKeyMap R2 t"
proof (induction t)
  case (MapAny x)
  have sp: "Sprintf_v R2 = Sprintf_v R1"
    by (rule ext) (rule Sprintf_v_FormatFloat[OF MapAny.prems(1)[symmetric]])
  have c: "\<And>v. v \<in> fmran' x \<Longrightarrow> convertToStringKeyMap R1 v = convertToStringKeyMap R2 v"
    using MapAny by simp
  have inj: "inj_on (Sprintf_v R1) (fset (fmdom x))"
    using MapAny.prems(2) by simp
  have s1: "set (range_any R1 (fmdom x)) = fset (fmdom x)"
    using MapAny.prems(3) by simp
  have s2: "set (range_any R2 (fmdom x)) = fset (fmdom x)"
    using MapAny.prems(4) by simp
  show ?case
    unfolding convertToStringKeyMap.simps sp val.inject
    by (rule fold_assign_order[OF inj s1 s2 c])
next
  case (MapStr x)
  have c: "\<And>v. v \<in> fmran' x \<Longrightarrow> convertToStringKeyMap R1 v = convertToStringKeyMap R2 v"
    using MapStr by simp
  have inj: "inj_on (\<lambda>k::string. k) (fset (fmdom x))"
    by simp
  have s1: "set (range_str R1 (fmdom x)) = fset (fmdom x)"
    using MapStr.prems(3) by simp
  have s2: "set (range_str R2 (fmdom x)) = fset (fmdom x)"
    using MapStr.prems(4) by simp
  show ?case
    unfolding convertToStringKeyMap.simps val.inject
    by (rule fold_assign_order[OF inj s1 s2 c])
next
  case (Slice xs)
  then show ?case
    by simp
qed simp_all







lemma last_visited_colliding: "last_visited run_a colliding_entries ''1'' = Some (KStr ''1'')"
  by (simp add: last_visited_def colliding_entries_def run_a_def visit_def decimal_one)

section \<open>Facts about the operators\<close>

text \<open>
  An error of \<open>Unmarshal\<close> or of \<open>json.Unmarshal\<close> is returned by the operator that
  made the call, and the message is left as it was.
\<close>

lemma library_error_returned:
  "AsBytes L m = Inr b \<Longrightarrow>
   (Unmarshal L (decMode cp) b = Inl e \<longrightarrow>
      (\<exists>err. newCBORToJSONOperator' L cp m = (m, Some err)))
   \<and> (json_Unmarshal L b = Inl e' \<longrightarrow>
      (\<exists>err. newCBORFromJSONOperator L cp m = (m, Some err)))"
  by (simp add: newCBORToJSONOperator'_def newCBORFromJSONOperator_def)

section \<open>The claims\<close>







text \<open>
  C3, as amended. For every map with keys of any type and every text, the output binds
  the text to the conversion of the value of the key with that text that the run
  visited last, and binds nothing to a text no key has: the last assignment wins, in
  the order of the visit, and the code fixes no order. For every input tree in which no
  map has two keys with the same text, any two runs return the same tree, whatever
  order each visits the entries of each map in.
\<close>

theorem convertToStringKeyMap_collision_rule:
  "(range_ok R (MapAny x) \<longrightarrow>
      bindings (convertToStringKeyMap R (MapAny x)) s
        = (case last_visited R x s of
             None \<Rightarrow> None
           | Some k \<Rightarrow> map_option (convertToStringKeyMap R) (fmlookup x k)))
   \<and> (FormatFloat R1 = FormatFloat R2 \<and> collision_free R1 t \<and> range_ok R1 t \<and> range_ok R2 t
        \<longrightarrow> convertToStringKeyMap R1 t = convertToStringKeyMap R2 t)"
  using convert_last_visited[of R x s] convert_order_independent[of R1 R2 t]
  by blast

theorem convertToStringKeyMap_collision_rule_witness:
  "range_ok run_a (MapAny colliding_entries)
   \<and> last_visited run_a colliding_entries ''1'' = Some (KStr ''1'')
   \<and> bindings (convertToStringKeyMap run_a (MapAny colliding_entries)) ''1'' = Some (Str ''b'')
   \<and> FormatFloat run_a = FormatFloat run_b \<and> collision_free run_a nested
   \<and> range_ok run_a nested \<and> range_ok run_b nested
   \<and> range_any run_a {|KUint 1, KStr ''x''|} \<noteq> range_any run_b {|KUint 1, KStr ''x''|}
   \<and> convertToStringKeyMap run_a nested = convertToStringKeyMap run_b nested"
proof -
  have f: "FormatFloat run_a = FormatFloat run_b"
    by (simp add: run_a_def run_b_def visit_def)
  have d: "range_any run_a {|KUint 1, KStr ''x''|} \<noteq> range_any run_b {|KUint 1, KStr ''x''|}"
    by (simp add: run_a_def run_b_def visit_def)
  have rc: "range_ok run_a (MapAny colliding_entries)"
    using range_ok_colliding by (simp add: colliding_def)
  have v: "fmlookup colliding_entries (KStr ''1'') = Some (Str ''b'')"
    by (simp add: colliding_entries_def)
  note r = range_ok_nested and l = last_visited_colliding
  from convertToStringKeyMap_collision_rule[of run_a colliding_entries "''1''" run_a run_b nested]
  show ?thesis
    using f d rc v r l collision_free_nested by simp
qed

text \<open>
  C3 as it is written fails: the map \<open>{1: "a", "1": "b"}\<close> has two keys with the text
  \<open>1\<close>, and the run that visits the unsigned key first returns \<open>{"1": "b"}\<close>, the run
  that visits it last \<open>{"1": "a"}\<close>.
\<close>

theorem convertToStringKeyMap_order_counterexample:
  "FormatFloat run_a = FormatFloat run_b \<and> range_ok run_a colliding \<and> range_ok run_b colliding
   \<and> convertToStringKeyMap run_a colliding = MapStr (fmupd ''1'' (Str ''b'') fmempty)
   \<and> convertToStringKeyMap run_b colliding = MapStr (fmupd ''1'' (Str ''a'') fmempty)
   \<and> convertToStringKeyMap run_a colliding \<noteq> convertToStringKeyMap run_b colliding"
proof -
  have f: "FormatFloat run_a = FormatFloat run_b"
    by (simp add: run_a_def run_b_def visit_def)
  have "fmlookup (fmupd ''1'' (Str ''b'') fmempty) ''1''
          \<noteq> fmlookup (fmupd ''1'' (Str ''a'') (fmempty :: (string, val) fmap)) ''1''"
    by simp
  then have "fmupd ''1'' (Str ''b'') fmempty \<noteq> fmupd ''1'' (Str ''a'') (fmempty :: (string, val) fmap)"
    by metis
  then show ?thesis
    using f range_ok_colliding by (simp add: run_a_colliding run_b_colliding)
qed

text \<open>
  C4, as amended. Whenever the decoding call of a to_json operator reports an error,
  the operator's error is "failed to decode CBOR: ", the decoder's message, a space and
  the payload bytes, so it includes the input byte content. Whenever the JSON parser
  reports an error, the error of the from_json operator is "failed to parse JSON: "
  followed by the parser's message and nothing else: no payload is appended.
\<close>

theorem decode_error_text:
  "AsBytes L m = Inr b \<Longrightarrow>
   (Decode L (decMode cp) b = Inl e \<longrightarrow>
      snd (newCBORToJSONOperator L R cp m) = Some (''failed to decode CBOR: '' @ e @ '' '' @ b)
      \<and> sublist b (''failed to decode CBOR: '' @ e @ '' '' @ b))
   \<and> (Unmarshal L (decMode cp) b = Inl e \<longrightarrow>
      snd (newCBORToJSONOperator' L cp m) = Some (''failed to decode CBOR: '' @ e @ '' '' @ b))
   \<and> (json_Unmarshal L b = Inl e' \<longrightarrow>
      snd (newCBORFromJSONOperator L cp m) = Some (''failed to parse JSON: '' @ e'))"
proof -
  assume a: "AsBytes L m = Inr b"
  have s: "sublist b (''failed to decode CBOR: '' @ e @ '' '' @ b)"
    using sublist_append_left[of b "''failed to decode CBOR: '' @ e @ '' ''"]
    by (simp only: append_assoc)
  show ?thesis
    using a s
    by (simp add: newCBORToJSONOperator_def newCBORToJSONOperator'_def
        newCBORFromJSONOperator_def)
qed

theorem decode_error_text_witness:
  "AsBytes sample_libs truncated = Inr ''{''
   \<and> Decode sample_libs (decMode sample_processor) ''{'' = Inl ''unexpected EOF''
   \<and> Unmarshal sample_libs (decMode sample_processor) ''{'' = Inl ''unexpected EOF''
   \<and> json_Unmarshal sample_libs ''{'' = Inl ''unexpected end of JSON input''
   \<and> snd (newCBORToJSONOperator sample_libs run_a sample_processor truncated)
       = Some ''failed to decode CBOR: unexpected EOF {''
   \<and> sublist ''{'' ''failed to decode CBOR: unexpected EOF {''
   \<and> snd (newCBORToJSONOperator' sample_libs sample_processor truncated)
       = Some ''failed to decode CBOR: unexpected EOF {''
   \<and> snd (newCBORFromJSONOperator sample_libs sample_processor truncated)
       = Some ''failed to parse JSON: unexpected end of JSON input''"
proof -
  have a: "AsBytes sample_libs truncated = Inr ''{''"
    by (simp add: sample_libs_def truncated_def)
  have d: "Decode sample_libs (decMode sample_processor) ''{'' = Inl ''unexpected EOF''"
    by (simp add: sample_libs_def)
  have u: "Unmarshal sample_libs (decMode sample_processor) ''{'' = Inl ''unexpected EOF''"
    by (simp add: sample_libs_def)
  have j: "json_Unmarshal sample_libs ''{'' = Inl ''unexpected end of JSON input''"
    by (simp add: sample_libs_def)
  from decode_error_text[OF a, of sample_processor "''unexpected EOF''" run_a
      "''unexpected end of JSON input''"]
  show ?thesis
    using a d u j by simp
qed

text \<open>
  C4 as it is written fails in the from_json direction: on the payload \<open>{\<close> the error is
  "failed to parse JSON: unexpected end of JSON input", and the payload is no part of
  it.
\<close>

theorem parse_error_payload_counterexample:
  "AsBytes sample_libs truncated = Inr ''{''
   \<and> json_Unmarshal sample_libs ''{'' = Inl ''unexpected end of JSON input''
   \<and> snd (newCBORFromJSONOperator sample_libs sample_processor truncated)
       = Some ''failed to parse JSON: unexpected end of JSON input''
   \<and> \<not> sublist ''{'' ''failed to parse JSON: unexpected end of JSON input''"
proof -
  have "\<not> sublist ''{'' ''failed to parse JSON: unexpected end of JSON input''"
    by (simp add: sublist_Cons_right)
  then show ?thesis
    by (simp add: sample_libs_def truncated_def newCBORFromJSONOperator_def)
qed

text \<open>
  C5. For every byte sequence that is not valid CBOR the to_json operator is to return
  an error. The bytes \<open>f6 ff\<close> are not valid: the item \<open>null\<close> is followed by a byte
  that belongs to no item, and \<open>Unmarshal\<close> rejects them. The to_json operator of
  the first processor file reads them with the stream decoder, which stops after the
  first item: it returns no error and replaces the payload by \<open>null\<close>. The to_json
  operator of the second file, which calls \<open>Unmarshal\<close>, returns the error and leaves
  the payload.
\<close>

theorem to_json_trailing_bytes:
  "AsBytes sample_libs trailing = Inr [CHR 0xF6, CHR 0xFF]
   \<and> Unmarshal sample_libs (decMode sample_processor) [CHR 0xF6, CHR 0xFF]
       = Inl ''cbor: 1 bytes of extraneous data starting at index 1''
   \<and> Decode sample_libs (decMode sample_processor) [CHR 0xF6, CHR 0xFF] = Inr Nil
   \<and> newCBORToJSONOperator sample_libs run_a sample_processor trailing
       = (\<lparr>payload = ''null''\<rparr>, None)
   \<and> newCBORToJSONOperator' sample_libs sample_processor trailing
       = (trailing,
          Some (''failed to decode CBOR: cbor: 1 bytes of extraneous data starting at index 1 ''
                @ [CHR 0xF6, CHR 0xFF]))"
proof -
  have a: "AsBytes sample_libs trailing = Inr [CHR 0xF6, CHR 0xFF]"
    by (simp add: sample_libs_def trailing_def)
  have u: "Unmarshal sample_libs (decMode sample_processor) [CHR 0xF6, CHR 0xFF]
             = Inl ''cbor: 1 bytes of extraneous data starting at index 1''"
    by (simp add: sample_libs_def decimal_one)
  have d: "Decode sample_libs (decMode sample_processor) [CHR 0xF6, CHR 0xFF] = Inr Nil"
    by (simp add: sample_libs_def)
  have j: "json_Marshal sample_libs Nil = Inr ''null''"
    by (simp add: sample_libs_def)
  show ?thesis
    using a u d j
    by (simp add: newCBORToJSONOperator_def newCBORToJSONOperator'_def SetBytes_def
        trailing_def)
qed

text \<open>
  C6. For every operator string other than "to_json" and "from_json", \<open>NewProcessor\<close>
  returns the error and no processor. For each of the two strings, the codec accepting
  the options the constructor passes, it returns a processor whose operator is the
  operation of that name.
\<close>

theorem NewProcessor_operator:
  "(operatorStr \<noteq> ''to_json'' \<and> operatorStr \<noteq> ''from_json'' \<longrightarrow>
      NewProcessor L operatorStr = Inl ''invalid operator type'')
   \<and> (EncMode L PreferredUnsortedEncOptions = Inr em \<and>
       DecMode L \<lparr>MapKeyByteString = MapKeyByteStringAllowed\<rparr> = Inr dm \<longrightarrow>
        NewProcessor L ''to_json''
          = Inr \<lparr>encMode = em, decMode = dm, operator = CBORToJSONOperator\<rparr>
        \<and> call_operator L R \<lparr>encMode = em, decMode = dm, operator = CBORToJSONOperator\<rparr> msg
          = newCBORToJSONOperator L R
              \<lparr>encMode = em, decMode = dm, operator = CBORToJSONOperator\<rparr> msg
        \<and> NewProcessor L ''from_json''
          = Inr \<lparr>encMode = em, decMode = dm, operator = CBORFromJSONOperator\<rparr>
        \<and> call_operator L R \<lparr>encMode = em, decMode = dm, operator = CBORFromJSONOperator\<rparr> msg
          = newCBORFromJSONOperator L
              \<lparr>encMode = em, decMode = dm, operator = CBORFromJSONOperator\<rparr> msg)"
  by (simp add: NewProcessor_def strToOperator_def call_operator_def)

theorem NewProcessor_operator_witness:
  "''to_yaml'' \<noteq> ''to_json'' \<and> ''to_yaml'' \<noteq> ''from_json''
   \<and> NewProcessor sample_libs ''to_yaml'' = Inl ''invalid operator type''
   \<and> EncMode sample_libs PreferredUnsortedEncOptions = Inr ()
   \<and> DecMode sample_libs \<lparr>MapKeyByteString = MapKeyByteStringAllowed\<rparr> = Inr ()
   \<and> NewProcessor sample_libs ''to_json''
       = Inr \<lparr>encMode = (), decMode = (), operator = CBORToJSONOperator\<rparr>
   \<and> NewProcessor sample_libs ''from_json'' = Inr sample_processor
   \<and> call_operator sample_libs run_a sample_processor json_null
       = newCBORFromJSONOperator sample_libs sample_processor json_null"
proof -
  have s: "''to_yaml'' \<noteq> ''to_json'' \<and> ''to_yaml'' \<noteq> ''from_json''"
    by simp
  have e: "EncMode sample_libs PreferredUnsortedEncOptions = Inr ()"
    by (simp add: sample_libs_def)
  have d: "DecMode sample_libs \<lparr>MapKeyByteString = MapKeyByteStringAllowed\<rparr> = Inr ()"
    by (simp add: sample_libs_def)
  from NewProcessor_operator[of "''to_yaml''" sample_libs "()" "()" run_a json_null]
  show ?thesis
    using s e d by (simp add: sample_processor_def)
qed

text \<open>
  C7. For every value tree parsed from well-formed JSON text, the from_json operator
  hands the CBOR encoder the parsed tree itself: what it returns is what encoding
  \<open>PrepareForCBOR\<close> of the tree, the identity, gives.
\<close>

theorem from_json_no_transformation:
  "AsBytes L msg = Inr b \<Longrightarrow> json_Unmarshal L b = Inr jsonData \<Longrightarrow>
   PrepareForCBOR jsonData = jsonData
   \<and> newCBORFromJSONOperator L cp msg =
       (case Marshal L (encMode cp) (PrepareForCBOR jsonData) of
          Inl err \<Rightarrow> (msg, Some (''failed to encode JSON to CBOR: '' @ err))
        | Inr cborData \<Rightarrow> (SetBytes msg cborData, None))"
  by (simp add: newCBORFromJSONOperator_def PrepareForCBOR_def)

theorem from_json_no_transformation_witness:
  "AsBytes sample_libs json_null = Inr ''null''
   \<and> json_Unmarshal sample_libs ''null'' = Inr Nil
   \<and> Marshal sample_libs (encMode sample_processor) Nil = Inr [CHR 0xF6]
   \<and> newCBORFromJSONOperator sample_libs sample_processor json_null
       = (\<lparr>payload = [CHR 0xF6]\<rparr>, None)"
proof -
  have a: "AsBytes sample_libs json_null = Inr ''null''"
    by (simp add: sample_libs_def json_null_def)
  have j: "json_Unmarshal sample_libs ''null'' = Inr Nil"
    by (simp add: sample_libs_def)
  have m: "Marshal sample_libs (encMode sample_processor) Nil = Inr [CHR 0xF6]"
    by (simp add: sample_libs_def)
  from from_json_no_transformation[OF a j, of sample_processor]
  show ?thesis
    using a j m by (simp add: PrepareForCBOR_def SetBytes_def json_null_def)
qed

text \<open>
  C10. For every message and each operator, if the operator returns an error then the
  message is the one it was given, payload included: \<open>SetBytes\<close> comes after the last
  step that can fail.
\<close>

theorem error_leaves_payload:
  "(snd (newCBORToJSONOperator L R cp m) \<noteq> None \<longrightarrow> fst (newCBORToJSONOperator L R cp m) = m)
   \<and> (snd (newCBORToJSONOperator' L cp m) \<noteq> None \<longrightarrow> fst (newCBORToJSONOperator' L cp m) = m)
   \<and> (snd (newCBORFromJSONOperator L cp m) \<noteq> None \<longrightarrow> fst (newCBORFromJSONOperator L cp m) = m)"
  by (simp add: newCBORToJSONOperator_def newCBORToJSONOperator'_def
      newCBORFromJSONOperator_def Let_def split: sum.splits)

theorem error_leaves_payload_witness:
  "snd (newCBORToJSONOperator sample_libs run_a sample_processor truncated) \<noteq> None
   \<and> snd (newCBORToJSONOperator' sample_libs sample_processor truncated) \<noteq> None
   \<and> snd (newCBORFromJSONOperator sample_libs sample_processor truncated) \<noteq> None
   \<and> payload (fst (newCBORToJSONOperator sample_libs run_a sample_processor truncated)) = ''{''
   \<and> payload (fst (newCBORToJSONOperator' sample_libs sample_processor truncated)) = ''{''
   \<and> payload (fst (newCBORFromJSONOperator sample_libs sample_processor truncated)) = ''{''"
proof -
  have a: "snd (newCBORToJSONOperator sample_libs run_a sample_processor truncated) \<noteq> None"
    by (simp add: newCBORToJSONOperator_def sample_libs_def truncated_def)
  have b: "snd (newCBORToJSONOperator' sample_libs sample_processor truncated) \<noteq> None"
    by (simp add: newCBORToJSONOperator'_def sample_libs_def truncated_def)
  have c: "snd (newCBORFromJSONOperator sample_libs sample_processor truncated) \<noteq> None"
    by (simp add: newCBORFromJSONOperator_def sample_libs_def truncated_def)
  have p: "payload truncated = ''{''"
    by (simp add: truncated_def)
  from error_leaves_payload[of sample_libs run_a sample_processor truncated]
  show ?thesis
    using a b c p by simp
qed

end
